theory Spec2Isabelle
  imports Main "HOL-Library.AList"
begin

section \<open>Runtime values of the host language\<close>

text \<open>
  The parsers of \<^verbatim>\<open>src/parse.ts\<close> receive values as \<^verbatim>\<open>JSON.parse\<close> produces them,
  together with \<^verbatim>\<open>undefined\<close>. A plain object (\<open>JObj\<close>, prototype
  \<^verbatim>\<open>Object.prototype\<close>) is the list of its own enumerable properties in
  \<^verbatim>\<open>for ... in\<close> order (a well-formed object has distinct keys); an array is the list of
  its members. Two more kinds of value arise while the parsers run: a built-in function
  (\<open>JFunction\<close>, with its name), which is what reading an inherited member such as
  \<^verbatim>\<open>constructor\<close> gives, and an object whose prototype has been replaced
  (\<open>JObjProto\<close>, with the new prototype, an object or \<^verbatim>\<open>null\<close>), which is what assigning
  to the key \<^verbatim>\<open>__proto__\<close> of a plain object can give.

  What belongs to the host and not to this repository is a parameter, the \<open>host\<close>
  record: numbers (type \<open>'n\<close>) with their falsiness and rendering; \<open>builtinMember\<close>, the
  member a value has under a key beyond the own properties modelled here (inherited
  through its prototype chain, or a built-in property of a function), if any; and
  \<open>objectToString\<close>, the string conversion of a function or of an object that brings its
  own conversion methods.
\<close>

datatype 'n jsval =
    JNull
  | JUndefined
  | JBool bool
  | JNum 'n
  | JStr string
  | JArr "'n jsval list"
  | JObj "(string \<times> 'n jsval) list"
  | JFunction string
  | JObjProto "'n jsval" "(string \<times> 'n jsval) list"

text \<open>An exception thrown by the host.\<close>

datatype exn = TypeError

record 'n host =
  numIsFalsy :: "'n \<Rightarrow> bool"
  numToString :: "'n \<Rightarrow> string"
  numOfNat :: "nat \<Rightarrow> 'n"
  builtinMember :: "'n jsval \<Rightarrow> string \<Rightarrow> 'n jsval option"
  objectToString :: "'n jsval \<Rightarrow> exn + string"

text \<open>\<^verbatim>\<open>typeof value\<close>\<close>

fun typeof :: "'n jsval \<Rightarrow> string" where
  "typeof JNull = ''object''"
| "typeof JUndefined = ''undefined''"
| "typeof (JBool b) = ''boolean''"
| "typeof (JNum n) = ''number''"
| "typeof (JStr s) = ''string''"
| "typeof (JArr xs) = ''object''"
| "typeof (JObj kvs) = ''object''"
| "typeof (JFunction f) = ''function''"
| "typeof (JObjProto p kvs) = ''object''"

text \<open>\<^verbatim>\<open>Array.isArray(value)\<close>\<close>

fun isArray :: "'n jsval \<Rightarrow> bool" where
  "isArray (JArr xs) = True"
| "isArray _ = False"

text \<open>The truthiness test of \<^verbatim>\<open>value ? ... : ...\<close>. A number is falsy when it is a zero or NaN.\<close>

fun truthy :: "'n host \<Rightarrow> 'n jsval \<Rightarrow> bool" where
  "truthy h JNull = False"
| "truthy h JUndefined = False"
| "truthy h (JBool b) = b"
| "truthy h (JNum n) = (\<not> numIsFalsy h n)"
| "truthy h (JStr s) = (s \<noteq> [])"
| "truthy h (JArr xs) = True"
| "truthy h (JObj kvs) = True"
| "truthy h (JFunction f) = True"
| "truthy h (JObjProto p kvs) = True"

text \<open>Decimal rendering of an array index, as a template literal or a property key shows it.\<close>

definition digitChar :: "nat \<Rightarrow> char" where
  "digitChar d = ''0123456789'' ! d"

fun showNat :: "nat \<Rightarrow> string" where
  "showNat n = (if n < 10 then [digitChar n] else showNat (n div 10) @ [digitChar (n mod 10)])"

declare showNat.simps [simp del]

definition joinWith :: "string \<Rightarrow> string list \<Rightarrow> string" where
  "joinWith sep xs = (case xs of [] \<Rightarrow> [] | y # ys \<Rightarrow> foldl (\<lambda>acc s. acc @ sep @ s) y ys)"

text \<open>The strings of a list of conversions, unless one of them threw.\<close>

fun allConverted :: "(exn + string) list \<Rightarrow> exn + string list" where
  "allConverted [] = Inr []"
| "allConverted (Inl e # rs) = Inl e"
| "allConverted (Inr s # rs) = (case allConverted rs of Inl e \<Rightarrow> Inl e | Inr ss \<Rightarrow> Inr (s # ss))"

text \<open>
  The string conversion of a template literal, \<^verbatim>\<open>`${value}`\<close>, which can throw. An array
  is joined with commas, its \<^verbatim>\<open>null\<close> and \<^verbatim>\<open>undefined\<close> members rendered empty and the
  others converted in turn. A plain object without an own property \<^verbatim>\<open>toString\<close> is
  \<^verbatim>\<open>[object Object]\<close>. With an own \<^verbatim>\<open>toString\<close> that is not a function the host turns
  to \<^verbatim>\<open>valueOf\<close>; the inherited one returns the object itself, and an own one that is
  not a function cannot be called: either way a \<^verbatim>\<open>TypeError\<close> is thrown. Where one of
  the two is an own property holding a function, and for a function or an object with a
  replaced prototype, the conversion is the host's.
\<close>

fun toString :: "'n host \<Rightarrow> 'n jsval \<Rightarrow> exn + string" where
  "toString h JNull = Inr ''null''"
| "toString h JUndefined = Inr ''undefined''"
| "toString h (JBool b) = Inr (if b then ''true'' else ''false'')"
| "toString h (JNum n) = Inr (numToString h n)"
| "toString h (JStr s) = Inr s"
| "toString h (JArr xs) =
     (case allConverted
             (map (\<lambda>x. if x = JNull \<or> x = JUndefined then Inr [] else toString h x) xs) of
        Inl e \<Rightarrow> Inl e
      | Inr ss \<Rightarrow> Inr (joinWith '','' ss))"
| "toString h (JObj kvs) =
     (case map_of kvs ''toString'' of
        None \<Rightarrow> Inr ''[object Object]''
      | Some m \<Rightarrow>
          if typeof m = ''function'' then objectToString h (JObj kvs)
          else (case map_of kvs ''valueOf'' of
                  None \<Rightarrow> Inl TypeError
                | Some m' \<Rightarrow>
                    if typeof m' = ''function'' then objectToString h (JObj kvs)
                    else Inl TypeError))"
| "toString h (JFunction f) = objectToString h (JFunction f)"
| "toString h (JObjProto p kvs) = objectToString h (JObjProto p kvs)"

text \<open>
  Property read \<^verbatim>\<open>value[key]\<close> on a value other than \<^verbatim>\<open>null\<close> and \<^verbatim>\<open>undefined\<close>
  (on those the host throws; the code never reads a property of them). An own property
  is looked up first: a key of an object, an index or \<^verbatim>\<open>length\<close> of an array or a
  string. Any other key reads what the host has under it, an inherited member for
  instance, and \<^verbatim>\<open>undefined\<close> when there is none.
\<close>

definition indexOfKey :: "nat \<Rightarrow> string \<Rightarrow> nat option" where
  "indexOfKey len key = find (\<lambda>i. showNat i = key) [0..<len]"

definition builtinOrUndefined :: "'n host \<Rightarrow> 'n jsval \<Rightarrow> string \<Rightarrow> 'n jsval" where
  "builtinOrUndefined h v key = (case builtinMember h v key of Some m \<Rightarrow> m | None \<Rightarrow> JUndefined)"

fun getProp :: "'n host \<Rightarrow> 'n jsval \<Rightarrow> string \<Rightarrow> 'n jsval" where
  "getProp h (JObj kvs) key =
     (case map_of kvs key of Some x \<Rightarrow> x | None \<Rightarrow> builtinOrUndefined h (JObj kvs) key)"
| "getProp h (JObjProto p kvs) key =
     (case map_of kvs key of Some x \<Rightarrow> x | None \<Rightarrow> builtinOrUndefined h (JObjProto p kvs) key)"
| "getProp h (JArr xs) key =
     (case indexOfKey (length xs) key of
        Some i \<Rightarrow> xs ! i
      | None \<Rightarrow> if key = ''length'' then JNum (numOfNat h (length xs))
                else builtinOrUndefined h (JArr xs) key)"
| "getProp h (JStr s) key =
     (case indexOfKey (length s) key of
        Some i \<Rightarrow> JStr [s ! i]
      | None \<Rightarrow> if key = ''length'' then JNum (numOfNat h (length s))
                else builtinOrUndefined h (JStr s) key)"
| "getProp h JNull key = JUndefined"
| "getProp h JUndefined key = JUndefined"
| "getProp h v key = builtinOrUndefined h v key"

text \<open>
  The keys a \<^verbatim>\<open>for (const key in value)\<close> loop visits, in order: the own enumerable
  keys, then the enumerable keys that come with a replaced prototype and are not
  shadowed. The built-in prototypes have no enumerable member.
\<close>

fun forInKeys :: "'n jsval \<Rightarrow> string list" where
  "forInKeys (JObj kvs) = map fst kvs"
| "forInKeys (JArr xs) = map showNat [0..<length xs]"
| "forInKeys (JStr s) = map showNat [0..<length s]"
| "forInKeys (JObjProto p kvs) = map fst kvs @ filter (\<lambda>k. k \<notin> fst ` set kvs) (forInKeys p)"
| "forInKeys _ = []"

text \<open>
  The assignment \<^verbatim>\<open>result[key] = x\<close> to the object a parser assembles. It creates or
  updates an own property, except where the key is \<^verbatim>\<open>__proto__\<close> and the lookup along
  the prototype chain meets the accessor of \<^verbatim>\<open>Object.prototype\<close> before any own
  property of that name: then the setter runs, which replaces the prototype when \<open>x\<close>
  is an object, a function or \<^verbatim>\<open>null\<close>, and does nothing otherwise. No own property is
  created in that case.
\<close>

fun protoSetterReached :: "'n jsval \<Rightarrow> bool" where
  "protoSetterReached (JObj kvs) = (map_of kvs ''__proto__'' = None)"
| "protoSetterReached (JObjProto p kvs) = (map_of kvs ''__proto__'' = None \<and> protoSetterReached p)"
| "protoSetterReached (JArr xs) = True"
| "protoSetterReached (JFunction f) = True"
| "protoSetterReached _ = False"

definition canBePrototype :: "'n jsval \<Rightarrow> bool" where
  "canBePrototype x = (typeof x = ''object'' \<or> typeof x = ''function'')"

fun setProp :: "'n jsval \<Rightarrow> string \<Rightarrow> 'n jsval \<Rightarrow> 'n jsval" where
  "setProp (JObj kvs) key x =
     (if key = ''__proto__'' \<and> protoSetterReached (JObj kvs)
      then (if canBePrototype x then JObjProto x kvs else JObj kvs)
      else JObj (AList.update key x kvs))"
| "setProp (JObjProto p kvs) key x =
     (if key = ''__proto__'' \<and> protoSetterReached (JObjProto p kvs)
      then (if canBePrototype x then JObjProto x kvs else JObjProto p kvs)
      else JObjProto p (AList.update key x kvs))"
| "setProp v key x = v"

section \<open>Results and parsers\<close>

text \<open>
  \<^verbatim>\<open>Failure<I> = {type: 'failure', reason, value}\<close>,
  \<^verbatim>\<open>Success<O> = {type: 'success', value}\<close> and
  \<^verbatim>\<open>Result<I,O> = Failure<I> | Success<O>\<close>; \<open>rtype\<close> is the field \<^verbatim>\<open>type\<close>.
\<close>

datatype 'i failure = MkFailure (reason: string) (fvalue: 'i)

datatype ('i, 'o) result = Failure "'i failure" | Success (svalue: 'o)

type_synonym ('i, 'o) parser = "'i \<Rightarrow> ('i, 'o) result"

fun rtype :: "('i, 'o) result \<Rightarrow> string" where
  "rtype (Failure f) = ''failure''"
| "rtype (Success x) = ''success''"

definition success :: "'o \<Rightarrow> ('i, 'o) result" where
  "success v = Success v"

definition failure :: "'i \<Rightarrow> string \<Rightarrow> 'i failure" where
  "failure v r = MkFailure r v"

definition isSuccess :: "('i, 'o) result \<Rightarrow> bool" where
  "isSuccess r = (rtype r = ''success'')"

definition isFailure :: "('i, 'o) result \<Rightarrow> bool" where
  "isFailure r = (rtype r = ''failure'')"

definition failTypeOf :: "'n jsval \<Rightarrow> 'n jsval failure" where
  "failTypeOf v = failure v (''typeof value is '' @ typeof v)"

text \<open>
  \<^verbatim>\<open>{...failure, value, reason: `Failed at '${key}': ${failure.reason}`}\<close>; a numeric key
  is passed in its decimal rendering.
\<close>

definition keyedFailure :: "'v \<Rightarrow> string \<Rightarrow> 'i failure \<Rightarrow> 'v failure" where
  "keyedFailure v key f =
     MkFailure (''Failed at '' @ [CHR 0x27] @ key @ [CHR 0x27] @ '': '' @ reason f) v"

subsection \<open>Result combinators\<close>

definition mapFailure ::
  "('i, 'a) result \<Rightarrow> ('i failure \<Rightarrow> ('j, 'a) result) \<Rightarrow> ('j, 'a) result" where
  "mapFailure r next = (case r of Failure f \<Rightarrow> next f | Success a \<Rightarrow> Success a)"

definition mapSuccess ::
  "('i, 'a) result \<Rightarrow> ('a \<Rightarrow> ('i, 'b) result) \<Rightarrow> ('i, 'b) result" where
  "mapSuccess r next = (case r of Success a \<Rightarrow> next a | Failure f \<Rightarrow> Failure f)"

definition mapResult :: "('i, 'a) result \<Rightarrow> ('a \<Rightarrow> 'c) \<Rightarrow> ('i failure \<Rightarrow> 'c) \<Rightarrow> 'c" where
  "mapResult r onSuccess onFailure =
     (case r of Success a \<Rightarrow> onSuccess a | Failure f \<Rightarrow> onFailure f)"

definition mapParser ::
  "('i, 'a) parser \<Rightarrow> ('a \<Rightarrow> ('i, 'b) result) \<Rightarrow> ('i, 'b) parser" where
  "mapParser validator next =
     (\<lambda>v. mapFailure (mapSuccess (validator v) next) (\<lambda>f. Failure (MkFailure (reason f) v)))"

subsection \<open>Scalar parsers\<close>

definition optional :: "('n jsval, 'n jsval) parser \<Rightarrow> ('n jsval, 'n jsval) parser" where
  "optional validator = (\<lambda>v. if v = JNull then success JNull else validator v)"

definition voidable :: "('n jsval, 'n jsval) parser \<Rightarrow> ('n jsval, 'n jsval) parser" where
  "voidable validator = (\<lambda>v. if v = JUndefined then success JUndefined else validator v)"

definition parseString :: "('n jsval, 'n jsval) parser" where
  "parseString v = (if typeof v = ''string'' then success v else Failure (failTypeOf v))"

definition parseNumber :: "('n jsval, 'n jsval) parser" where
  "parseNumber v = (if typeof v = ''number'' then success v else Failure (failTypeOf v))"

definition parseUndefined :: "('n jsval, 'n jsval) parser" where
  "parseUndefined v = (if v = JUndefined then success JUndefined else Failure (failTypeOf v))"

definition parseBoolean :: "('n jsval, 'n jsval) parser" where
  "parseBoolean v = (if typeof v = ''boolean'' then success v else Failure (failTypeOf v))"

definition parseAnyValue :: "('n jsval, 'n jsval) parser" where
  "parseAnyValue v = success v"

definition parseObject :: "('n jsval, 'n jsval) parser" where
  "parseObject v =
     (if typeof v = ''object'' \<and> v \<noteq> JNull then success v else Failure (failTypeOf v))"

text \<open>
  \<^verbatim>\<open>parseArray<I,O>(value: I): Result<I,O[]>\<close>: the successful value is the array itself,
  handed on as its member list.
\<close>

definition parseArray :: "('n jsval, 'n jsval list) parser" where
  "parseArray v =
     (case v of JArr xs \<Rightarrow> success xs
      | _ \<Rightarrow> Failure (failure v ''value is not Array.isArray''))"

subsection \<open>Structural parsers\<close>

text \<open>The argument \<^verbatim>\<open>value ? value[key] : undefined\<close> of a field's parser.\<close>

definition fieldOf :: "'n host \<Rightarrow> 'n jsval \<Rightarrow> string \<Rightarrow> 'n jsval" where
  "fieldOf h v key = (if truthy h v then getProp h v key else JUndefined)"

text \<open>
  The loop of \<^verbatim>\<open>parseObjectOf\<close> over the declared fields, with the object \<^verbatim>\<open>result\<close>
  assembled so far, which starts as \<^verbatim>\<open>{}\<close>. The object \<^verbatim>\<open>validators\<close> is the list of
  its keys and parsers in \<^verbatim>\<open>for ... in\<close> order.
\<close>

fun objectOfLoop ::
  "'n host \<Rightarrow> (string \<times> ('n jsval, 'n jsval) parser) list \<Rightarrow> 'n jsval \<Rightarrow>
   'n jsval \<Rightarrow> ('n jsval, 'n jsval) result" where
  "objectOfLoop h [] v res = success res"
| "objectOfLoop h ((key, validator) # rest) v res =
     (case validator (fieldOf h v key) of
        Failure f \<Rightarrow> Failure (keyedFailure v key f)
      | Success x \<Rightarrow> objectOfLoop h rest v (setProp res key x))"

definition parseObjectOf ::
  "'n host \<Rightarrow> (string \<times> ('n jsval, 'n jsval) parser) list \<Rightarrow> ('n jsval, 'n jsval) parser" where
  "parseObjectOf h validators = (\<lambda>v. objectOfLoop h validators v (JObj []))"

fun indexedLoop ::
  "'n host \<Rightarrow> ('n jsval, 'n jsval) parser \<Rightarrow> string list \<Rightarrow> 'n jsval \<Rightarrow>
   'n jsval \<Rightarrow> ('n jsval, 'n jsval) result" where
  "indexedLoop h p [] v res = success res"
| "indexedLoop h p (key # keys) v res =
     (case p (getProp h v key) of
        Failure f \<Rightarrow> Failure (keyedFailure v key f)
      | Success x \<Rightarrow> indexedLoop h p keys v (setProp res key x))"

text \<open>
  The first guard is \<^verbatim>\<open>value === null || value == undefined\<close>; the loose comparison
  with \<^verbatim>\<open>undefined\<close> holds of \<^verbatim>\<open>null\<close> and \<^verbatim>\<open>undefined\<close> only.
\<close>

definition parseIndexedObjectOf ::
  "'n host \<Rightarrow> ('n jsval, 'n jsval) parser \<Rightarrow> ('n jsval, 'n jsval) parser" where
  "parseIndexedObjectOf h p =
     (\<lambda>v. if v = JNull \<or> (v = JNull \<or> v = JUndefined)
          then Failure (failure v ''value is null or undefined'')
          else if typeof v \<noteq> ''object'' then Failure (failTypeOf v)
          else indexedLoop h p (forInKeys v) v (JObj []))"

text \<open>
  \<^verbatim>\<open>value.reduce((result, member, index) => ..., success([]))\<close> is a left fold over the
  members paired with their indices.
\<close>

definition arrayOfStep ::
  "('n jsval, 'o) parser \<Rightarrow> 'n jsval list \<Rightarrow> ('n jsval, 'o list) result \<Rightarrow>
   nat \<times> 'n jsval \<Rightarrow> ('n jsval, 'o list) result" where
  "arrayOfStep validator arr r im =
     mapSuccess r (\<lambda>items.
       mapResult (validator (snd im))
         (\<lambda>valid. success (items @ [valid]))
         (\<lambda>f. Failure (keyedFailure (JArr arr) (showNat (fst im)) f)))"

definition parseArrayOf :: "('n jsval, 'o) parser \<Rightarrow> ('n jsval, 'o list) parser" where
  "parseArrayOf validator =
     mapParser parseArray
       (\<lambda>arr. foldl (arrayOfStep validator arr) (success []) (List.enumerate 0 arr))"

text \<open>
  \<^verbatim>\<open>parseOneOf\<close> builds its failure with a template literal over the input, so a call
  either returns a result or throws: its outcome is a sum, \<open>Inl\<close> the exception. The
  outer \<^verbatim>\<open>mapFailure\<close> of the source is \<open>mapFailureThrowing\<close> here, its callback being the
  one that can throw.
\<close>

definition mapFailureThrowing ::
  "('i, 'a) result \<Rightarrow> ('i failure \<Rightarrow> exn + ('j, 'a) result) \<Rightarrow> exn + ('j, 'a) result" where
  "mapFailureThrowing r next = (case r of Failure f \<Rightarrow> next f | Success a \<Rightarrow> Inr (Success a))"

definition parseOneOf ::
  "'n host \<Rightarrow> ('n jsval, 'o) parser \<Rightarrow> ('n jsval, 'o) parser list \<Rightarrow>
   'n jsval \<Rightarrow> exn + ('n jsval, 'o) result" where
  "parseOneOf h p parsers =
     (if length parsers = 0 then (\<lambda>v. Inr (p v))
      else (\<lambda>v. mapFailureThrowing
             (foldl (\<lambda>r validator. mapFailure r (\<lambda>_. validator v)) (p v) parsers)
             (\<lambda>_. case toString h v of
                     Inl e \<Rightarrow> Inl e
                   | Inr s \<Rightarrow>
                       Inr (Failure (failure v
                         ([CHR 0x27] @ s @ [CHR 0x27] @ '' did not match any of '' @
                          showNat (length parsers + 1) @ '' validators''))))))"

subsection \<open>A host for evaluating examples\<close>

text \<open>
  Numbers are integers of small magnitude, rendered in decimal. Of the built-in members
  the sample host lists the functions every plain object inherits from
  \<^verbatim>\<open>Object.prototype\<close>; the examples read no other built-in member. A function is
  rendered as the host prints a native one; the examples convert no object that brings
  its own conversion methods.
\<close>

definition showInt :: "int \<Rightarrow> string" where
  "showInt i = (if i < 0 then ''-'' @ showNat (nat (- i)) else showNat (nat i))"

definition objectPrototypeFunctions :: "string list" where
  "objectPrototypeFunctions =
     [''constructor'', ''hasOwnProperty'', ''isPrototypeOf'', ''propertyIsEnumerable'',
      ''toLocaleString'', ''toString'', ''valueOf'', ''__defineGetter__'',
      ''__defineSetter__'', ''__lookupGetter__'', ''__lookupSetter__'']"

fun plainObjectMember :: "int jsval \<Rightarrow> string \<Rightarrow> int jsval option" where
  "plainObjectMember (JObj kvs) key =
     (if key \<in> set objectPrototypeFunctions
      then Some (JFunction (if key = ''constructor'' then ''Object'' else key))
      else None)"
| "plainObjectMember v key = None"

fun nativeToString :: "int jsval \<Rightarrow> exn + string" where
  "nativeToString (JFunction f) = Inr (''function '' @ f @ ''() { [native code] }'')"
| "nativeToString v = Inl TypeError"

definition intHost :: "int host" where
  "intHost = \<lparr>numIsFalsy = (\<lambda>n. n = 0), numToString = showInt, numOfNat = int,
               builtinMember = plainObjectMember, objectToString = nativeToString\<rparr>"

subsection \<open>Example values\<close>

text \<open>A transform \<^verbatim>\<open>() => failure('inner', 'rejected')\<close> that rejects every value.\<close>

definition rejectInner :: "int jsval \<Rightarrow> (int jsval, int jsval) result" where
  "rejectInner a = Failure (failure (JStr ''inner'') ''rejected'')"

text \<open>
  A record \<^verbatim>\<open>{name: 'Ann', age: 'x', extra: true}\<close> and an album
  \<^verbatim>\<open>{artist: 'The Beatles', name: 'Revolver', yearReleased: 1966}\<close>.
\<close>

definition person :: "int jsval" where
  "person = JObj [(''name'', JStr ''Ann''), (''age'', JStr ''x''), (''extra'', JBool True)]"

definition album :: "int jsval" where
  "album = JObj [(''artist'', JStr ''The Beatles''), (''name'', JStr ''Revolver''),
                 (''yearReleased'', JNum 1966)]"

text \<open>
  A record \<^verbatim>\<open>{child: {id: 1, extra: true}}\<close> and the JSON object
  \<^verbatim>\<open>{"__proto__": 1, "a": 2}\<close>, which owns both of its keys.
\<close>

definition family :: "int jsval" where
  "family = JObj [(''child'', JObj [(''id'', JNum 1), (''extra'', JBool True)])]"

definition protoKeyed :: "int jsval" where
  "protoKeyed = JObj [(''__proto__'', JNum 1), (''a'', JNum 2)]"

section \<open>The result model\<close>

text \<open>
  C10. For every result exactly one of \<open>isSuccess\<close> and \<open>isFailure\<close> holds: at least
  one of them does, and never both.
\<close>

theorem result_exactly_one_variant:
  "(isSuccess r \<or> isFailure r) \<and> \<not> (isSuccess r \<and> isFailure r)"
  by (cases r) (simp_all add: isSuccess_def isFailure_def)

section \<open>Absence-tolerant wrapping\<close>

text \<open>
  C7. \<open>optional p\<close> answers \<^verbatim>\<open>null\<close> with success \<^verbatim>\<open>null\<close> whatever \<open>p\<close> is, and
  is \<open>p\<close> on every other input, \<^verbatim>\<open>undefined\<close> included; \<open>voidable p\<close> answers
  \<^verbatim>\<open>undefined\<close> with success \<^verbatim>\<open>undefined\<close> whatever \<open>p\<close> is, and is \<open>p\<close> on every
  other input, \<^verbatim>\<open>null\<close> included.
\<close>

theorem optional_voidable_bypass:
  "optional p JNull = Success JNull
   \<and> (v \<noteq> JNull \<longrightarrow> optional p v = p v)
   \<and> optional p JUndefined = p JUndefined
   \<and> voidable p JUndefined = Success JUndefined
   \<and> (v \<noteq> JUndefined \<longrightarrow> voidable p v = p v)
   \<and> voidable p JNull = p JNull"
  by (simp add: optional_def voidable_def success_def)

theorem optional_voidable_bypass_witness:
  "JStr ''a'' \<noteq> (JNull :: int jsval)
   \<and> optional parseString (JStr ''a'' :: int jsval) = parseString (JStr ''a'')
   \<and> optional parseString (JNull :: int jsval) = Success JNull
   \<and> optional parseString (JUndefined :: int jsval) = parseString JUndefined
   \<and> JStr ''a'' \<noteq> (JUndefined :: int jsval)
   \<and> voidable parseString (JStr ''a'' :: int jsval) = parseString (JStr ''a'')
   \<and> voidable parseString (JUndefined :: int jsval) = Success JUndefined
   \<and> voidable parseString (JNull :: int jsval) = parseString JNull"
proof -
  have n: "JStr ''a'' \<noteq> (JNull :: int jsval)" and u: "JStr ''a'' \<noteq> (JUndefined :: int jsval)"
    by simp_all
  from optional_voidable_bypass [of parseString "JStr ''a'' :: int jsval"] n u
  show ?thesis by blast
qed

section \<open>Scalar parsers\<close>

text \<open>
  C4, as the code has it. On an input it does not accept, each of \<open>parseString\<close>,
  \<open>parseNumber\<close>, \<open>parseBoolean\<close>, \<open>parseUndefined\<close> and \<open>parseObject\<close> returns a
  failure whose reason is \<^verbatim>\<open>typeof value is \<close> followed by the input's type tag and
  whose value is the input; \<open>parseAnyValue\<close> accepts every input; \<open>parseArray\<close> rejects
  an input that is not an array with the fixed reason \<^verbatim>\<open>value is not Array.isArray\<close>
  and the input as value.
\<close>

theorem scalar_failure_reason:
  "(typeof v \<noteq> ''string'' \<longrightarrow>
      parseString v = Failure (MkFailure (''typeof value is '' @ typeof v) v))
   \<and> (typeof v \<noteq> ''number'' \<longrightarrow>
      parseNumber v = Failure (MkFailure (''typeof value is '' @ typeof v) v))
   \<and> (typeof v \<noteq> ''boolean'' \<longrightarrow>
      parseBoolean v = Failure (MkFailure (''typeof value is '' @ typeof v) v))
   \<and> (v \<noteq> JUndefined \<longrightarrow>
      parseUndefined v = Failure (MkFailure (''typeof value is '' @ typeof v) v))
   \<and> (\<not> (typeof v = ''object'' \<and> v \<noteq> JNull) \<longrightarrow>
      parseObject v = Failure (MkFailure (''typeof value is '' @ typeof v) v))
   \<and> parseAnyValue v = Success v
   \<and> (\<not> isArray v \<longrightarrow>
      parseArray v = Failure (MkFailure ''value is not Array.isArray'' v))"
  by (cases v)
     (simp_all add: parseString_def parseNumber_def parseBoolean_def parseUndefined_def
        parseObject_def parseAnyValue_def parseArray_def failTypeOf_def failure_def success_def)

theorem scalar_failure_reason_witness:
  "typeof (JNull :: int jsval) \<noteq> ''string''
   \<and> typeof (JNull :: int jsval) \<noteq> ''number''
   \<and> typeof (JNull :: int jsval) \<noteq> ''boolean''
   \<and> (JNull :: int jsval) \<noteq> JUndefined
   \<and> \<not> (typeof (JNull :: int jsval) = ''object'' \<and> (JNull :: int jsval) \<noteq> JNull)
   \<and> \<not> isArray (JNull :: int jsval)
   \<and> parseString (JNull :: int jsval) = Failure (MkFailure ''typeof value is object'' JNull)
   \<and> parseNumber (JNull :: int jsval) = Failure (MkFailure ''typeof value is object'' JNull)
   \<and> parseBoolean (JNull :: int jsval) = Failure (MkFailure ''typeof value is object'' JNull)
   \<and> parseUndefined (JNull :: int jsval) = Failure (MkFailure ''typeof value is object'' JNull)
   \<and> parseObject (JNull :: int jsval) = Failure (MkFailure ''typeof value is object'' JNull)
   \<and> parseArray (JNull :: int jsval) = Failure (MkFailure ''value is not Array.isArray'' JNull)"
  using scalar_failure_reason [of "JNull :: int jsval"] by simp

text \<open>
  The claim as written fails for \<open>parseArray\<close>: on \<^verbatim>\<open>null\<close> it fails, and its reason is
  not the type-tag reason.
\<close>

theorem scalar_failure_reason_counterexample:
  "\<not> isArray (JNull :: int jsval)
   \<and> isFailure (parseArray (JNull :: int jsval))
   \<and> parseArray (JNull :: int jsval)
       \<noteq> Failure (MkFailure (''typeof value is '' @ typeof (JNull :: int jsval)) JNull)"
  by (simp add: parseArray_def failure_def isFailure_def)

section \<open>Transformation\<close>

text \<open>
  C3, as the code has it. When the child fails, \<open>mapParser\<close> returns the child's reason
  with the outer input as value. When the child succeeds, the transform is applied to
  the child's value: its success is returned unchanged, and its failure keeps its
  reason while its value, too, is rewritten to the outer input.
\<close>

theorem mapParser_results:
  "(validator v = Failure f \<longrightarrow>
      mapParser validator transform v = Failure (MkFailure (reason f) v))
   \<and> (validator v = Success a \<and> transform a = Success b \<longrightarrow>
      mapParser validator transform v = Success b)
   \<and> (validator v = Success a \<and> transform a = Failure g \<longrightarrow>
      mapParser validator transform v = Failure (MkFailure (reason g) v))"
  by (simp add: mapParser_def mapFailure_def mapSuccess_def)

theorem mapParser_results_witness:
  "parseNumber (JStr ''x'' :: int jsval) = Failure (MkFailure ''typeof value is string'' (JStr ''x''))
   \<and> mapParser parseNumber parseString (JStr ''x'' :: int jsval)
       = Failure (MkFailure ''typeof value is string'' (JStr ''x''))
   \<and> parseNumber (JNum 1 :: int jsval) = Success (JNum 1)
   \<and> parseAnyValue (JNum 1 :: int jsval) = Success (JNum 1)
   \<and> mapParser parseNumber parseAnyValue (JNum 1 :: int jsval) = Success (JNum 1)
   \<and> rejectInner (JNum 1) = Failure (MkFailure ''rejected'' (JStr ''inner''))
   \<and> mapParser parseNumber rejectInner (JNum 1) = Failure (MkFailure ''rejected'' (JNum 1))"
proof -
  have c1: "parseNumber (JStr ''x'' :: int jsval)
              = Failure (MkFailure ''typeof value is string'' (JStr ''x''))"
    by (simp add: parseNumber_def failTypeOf_def failure_def)
  have c2: "parseNumber (JNum 1 :: int jsval) = Success (JNum 1)"
    by (simp add: parseNumber_def success_def)
  have t2: "parseAnyValue (JNum 1 :: int jsval) = Success (JNum 1)"
    by (simp add: parseAnyValue_def success_def)
  have t3: "rejectInner (JNum 1) = Failure (MkFailure ''rejected'' (JStr ''inner''))"
    by (simp add: rejectInner_def failure_def)
  from mapParser_results [where validator = parseNumber and v = "JStr ''x'' :: int jsval" and transform = parseString
         and f = "MkFailure ''typeof value is string'' (JStr ''x'')", THEN conjunct1] c1
  have r1: "mapParser parseNumber parseString (JStr ''x'' :: int jsval)
              = Failure (MkFailure ''typeof value is string'' (JStr ''x''))"
    by simp
  from mapParser_results [where validator = parseNumber and v = "JNum 1 :: int jsval" and transform = parseAnyValue
         and a = "JNum 1" and b = "JNum 1", THEN conjunct2, THEN conjunct1] c2 t2
  have r2: "mapParser parseNumber parseAnyValue (JNum 1 :: int jsval) = Success (JNum 1)"
    by simp
  from mapParser_results [where validator = parseNumber and v = "JNum 1 :: int jsval" and transform = rejectInner
         and a = "JNum 1" and g = "MkFailure ''rejected'' (JStr ''inner'')",
         THEN conjunct2, THEN conjunct2] c2 t3
  have r3: "mapParser parseNumber rejectInner (JNum 1) = Failure (MkFailure ''rejected'' (JNum 1))"
    by simp
  from c1 c2 t2 t3 r1 r2 r3 show ?thesis by simp
qed

text \<open>
  The claim as written fails where the transform reports a failure: the result is not
  the transform's result, its value is the outer input.
\<close>

theorem mapParser_results_counterexample:
  "parseNumber (JNum 1 :: int jsval) = Success (JNum 1)
   \<and> rejectInner (JNum 1) = Failure (MkFailure ''rejected'' (JStr ''inner''))
   \<and> mapParser parseNumber rejectInner (JNum 1) \<noteq> rejectInner (JNum 1)"
  by (simp add: mapParser_def mapFailure_def mapSuccess_def parseNumber_def success_def
        rejectInner_def failure_def)

section \<open>Fixed-shape records\<close>

text \<open>The object assembled from the fields that have been validated so far.\<close>

lemma update_fresh_key: "k \<notin> fst ` set al \<Longrightarrow> AList.update k x al = al @ [(k, x)]"
  by (induction al) auto

lemma setProp_ordinary_key:
  "key \<noteq> ''__proto__'' \<Longrightarrow> setProp (JObj kvs) key x = JObj (AList.update key x kvs)"
  by simp

lemma objectOfLoop_prefix:
  "\<forall>(k, q) \<in> set pre. isSuccess (q (fieldOf h v k)) \<Longrightarrow>
   objectOfLoop h (pre @ rest) v res =
   objectOfLoop h rest v
     (foldl (\<lambda>acc (k, q). setProp acc k (svalue (q (fieldOf h v k)))) res pre)"
proof (induction pre arbitrary: res)
  case Nil
  show ?case by simp
next
  case (Cons kq pre)
  obtain k q where kq: "kq = (k, q)" by (cases kq)
  from Cons.prems kq obtain x where x: "q (fieldOf h v k) = Success x"
    by (cases "q (fieldOf h v k)") (auto simp: isSuccess_def)
  from Cons.prems have rest_ok: "\<forall>(k, q) \<in> set pre. isSuccess (q (fieldOf h v k))"
    by simp
  show ?case
    using Cons.IH [OF rest_ok] by (simp add: kq x)
qed

lemma assemble_distinct:
  "distinct (map fst vs) \<Longrightarrow> ''__proto__'' \<notin> fst ` set vs \<Longrightarrow>
   fst ` set vs \<inter> fst ` set res = {} \<Longrightarrow>
   foldl (\<lambda>acc (k, q). setProp acc k (g k q)) (JObj res) vs =
   JObj (res @ map (\<lambda>(k, q). (k, g k q)) vs)"
proof (induction vs arbitrary: res)
  case Nil
  show ?case by simp
next
  case (Cons kq vs)
  obtain k q where kq: "kq = (k, q)" by (cases kq)
  from Cons.prems kq have fresh: "k \<notin> fst ` set res" by auto
  from Cons.prems kq have ordinary: "k \<noteq> ''__proto__''" by auto
  from Cons.prems kq have d: "distinct (map fst vs)" by simp
  from Cons.prems kq have np: "''__proto__'' \<notin> fst ` set vs" by simp
  from Cons.prems kq have disj: "fst ` set vs \<inter> fst ` set (res @ [(k, g k q)]) = {}"
    by auto
  show ?case
    using Cons.IH [OF d np disj]
    by (simp add: kq setProp_ordinary_key [OF ordinary] update_fresh_key [OF fresh]
          del: setProp.simps)
qed

lemma objectOfLoop_failure_field:
  "isFailure (objectOfLoop h vs v res) \<Longrightarrow> \<exists>(k, q) \<in> set vs. isFailure (q (fieldOf h v k))"
proof (induction vs arbitrary: res)
  case Nil
  then show ?case by (simp add: success_def isFailure_def)
next
  case (Cons kq vs)
  obtain k q where kq: "kq = (k, q)" by (cases kq)
  show ?case
  proof (cases "q (fieldOf h v k)")
    case (Failure f)
    then show ?thesis by (simp add: kq isFailure_def)
  next
    case (Success x)
    with Cons.prems kq have "isFailure (objectOfLoop h vs v (setProp res k x))"
      by simp
    from Cons.IH [OF this] show ?thesis by auto
  qed
qed

text \<open>
  The fields are visited in declared order, each validator receiving
  \<^verbatim>\<open>value ? value[key] : undefined\<close>. When the fields before \<open>key\<close> validate and the
  validator of \<open>key\<close> fails, the result is a failure whose value is the whole input and
  whose reason is \<^verbatim>\<open>Failed at '<key>': \<close> followed by the child's reason, whatever the
  fields declared after \<open>key\<close> and their validators are. A key that a record neither
  owns nor has as a built-in member is read as \<^verbatim>\<open>undefined\<close>.
\<close>

lemma parseObjectOf_first_failure:
  assumes "\<forall>(k, q) \<in> set pre. isSuccess (q (fieldOf h v k))"
    and "p (fieldOf h v key) = Failure f"
  shows "parseObjectOf h (pre @ (key, p) # rest) v =
           Failure (MkFailure (''Failed at '' @ [CHR 0x27] @ key @ [CHR 0x27] @ '': '' @ reason f) v)
         \<and> (map_of kvs field = None \<and> builtinMember h (JObj kvs) field = None \<longrightarrow>
              fieldOf h (JObj kvs) field = JUndefined)"
proof -
  have "parseObjectOf h (pre @ (key, p) # rest) v =
          objectOfLoop h ((key, p) # rest) v
            (foldl (\<lambda>acc (k, q). setProp acc k (svalue (q (fieldOf h v k)))) (JObj []) pre)"
    unfolding parseObjectOf_def by (rule objectOfLoop_prefix [OF assms(1)])
  also have "\<dots> = Failure (keyedFailure v key f)"
    by (simp add: assms(2))
  finally show ?thesis
    by (simp add: keyedFailure_def fieldOf_def builtinOrUndefined_def)
qed

text \<open>
  C1. The claim has a key the record lacks read as \<^verbatim>\<open>undefined\<close>. The code reads
  \<^verbatim>\<open>value[key]\<close>, which also finds the members a record inherits. The record
  \<^verbatim>\<open>{name: 'Ann'}\<close> has no key \<^verbatim>\<open>constructor\<close>, and \<open>voidable parseString\<close> accepts
  \<^verbatim>\<open>undefined\<close>; yet for that field the validator receives the inherited function
  \<^verbatim>\<open>Object\<close>, and the record validator fails with
  \<^verbatim>\<open>Failed at 'constructor': typeof value is function\<close>.
\<close>

theorem parseObjectOf_inherited_member_read:
  "map_of [(''name'', JStr ''Ann'' :: int jsval)] ''constructor'' = None
   \<and> voidable parseString (JUndefined :: int jsval) = Success JUndefined
   \<and> fieldOf intHost (JObj [(''name'', JStr ''Ann'')]) ''constructor'' = JFunction ''Object''
   \<and> parseObjectOf intHost [(''name'', parseString), (''constructor'', voidable parseString)]
        (JObj [(''name'', JStr ''Ann'')])
       = Failure (MkFailure (''Failed at '' @ [CHR 0x27] @ ''constructor'' @ [CHR 0x27] @ '': ''
                             @ ''typeof value is function'')
                    (JObj [(''name'', JStr ''Ann'')]))"
  by (simp add: parseObjectOf_def fieldOf_def builtinOrUndefined_def intHost_def
        objectPrototypeFunctions_def voidable_def parseString_def success_def failTypeOf_def
        failure_def keyedFailure_def)

lemma map_of_validated_declared:
  "distinct (map fst vs) \<Longrightarrow> (k, q) \<in> set vs \<Longrightarrow>
   map_of (map (\<lambda>(k, q). (k, g k q)) vs) k = Some (g k q)"
  by (induction vs) (auto simp: rev_image_eqI)

lemma map_of_validated_undeclared:
  "k \<notin> fst ` set vs \<Longrightarrow> map_of (map (\<lambda>(k, q). (k, g k q)) vs) k = None"
  by (induction vs) auto

text \<open>
  C6, as the code has it. When the declared fields (distinct keys, none of them
  \<^verbatim>\<open>__proto__\<close>) all validate, the result is a success carrying a new record of exactly
  the declared fields, each with its validated value; keys of the input that are not
  declared do not appear. The validated value is what the child returns: where every
  declared field is an own key of the input and every child returns its input
  unchanged, the result is, as a map from keys to values, the input restricted to the
  declared fields.
\<close>

theorem parseObjectOf_success_declared_fields:
  assumes "distinct (map fst vs)"
    and "''__proto__'' \<notin> fst ` set vs"
    and "\<forall>(k, q) \<in> set vs. isSuccess (q (fieldOf h v k))"
  shows "parseObjectOf h vs v =
           Success (JObj (map (\<lambda>(k, q). (k, svalue (q (fieldOf h v k)))) vs))
         \<and> (v = JObj kvs \<and> fst ` set vs \<subseteq> fst ` set kvs
              \<and> (\<forall>(k, q) \<in> set vs. q (fieldOf h v k) = Success (fieldOf h v k)) \<longrightarrow>
              map_of (map (\<lambda>(k, q). (k, svalue (q (fieldOf h v k)))) vs)
                = map_of kvs |` (fst ` set vs))"
proof -
  let ?res = "map (\<lambda>(k, q). (k, svalue (q (fieldOf h v k)))) vs"
  have "parseObjectOf h vs v =
          objectOfLoop h [] v
            (foldl (\<lambda>acc (k, q). setProp acc k (svalue (q (fieldOf h v k)))) (JObj []) vs)"
    unfolding parseObjectOf_def
    using objectOfLoop_prefix [OF assms(3), of "[]" "JObj []"] by simp
  also have "\<dots> = Success (JObj ?res)"
    using assemble_distinct [OF assms(1) assms(2), of "[]" "\<lambda>k q. svalue (q (fieldOf h v k))"]
    by (simp add: success_def)
  finally have eq: "parseObjectOf h vs v = Success (JObj ?res)" .
  have restr: "map_of ?res = map_of kvs |` (fst ` set vs)"
    if v: "v = JObj kvs" and own: "fst ` set vs \<subseteq> fst ` set kvs"
      and same: "\<forall>(k, q) \<in> set vs. q (fieldOf h v k) = Success (fieldOf h v k)"
  proof
    fix k
    show "map_of ?res k = (map_of kvs |` (fst ` set vs)) k"
    proof (cases "k \<in> fst ` set vs")
      case False
      then show ?thesis
        by (simp add: map_of_validated_undeclared)
    next
      case True
      then obtain q where kq: "(k, q) \<in> set vs" by auto
      from own True have "k \<in> fst ` set kvs" by (rule subsetD)
      then have "map_of kvs k \<noteq> None" by (simp add: map_of_eq_None_iff)
      then obtain x where x: "map_of kvs k = Some x" by blast
      then have "fieldOf h v k = x" by (simp add: v fieldOf_def)
      moreover from same kq have "q (fieldOf h v k) = Success (fieldOf h v k)" by blast
      ultimately have "svalue (q (fieldOf h v k)) = x" by simp
      with True x show ?thesis
        by (simp add: map_of_validated_declared [OF assms(1) kq])
    qed
  qed
  show ?thesis
  proof (intro conjI impI)
    show "parseObjectOf h vs v = Success (JObj ?res)"
      by (rule eq)
  next
    assume a: "v = JObj kvs \<and> fst ` set vs \<subseteq> fst ` set kvs
      \<and> (\<forall>(k, q) \<in> set vs. q (fieldOf h v k) = Success (fieldOf h v k))"
    from a have 1: "v = JObj kvs" by (rule conjunct1)
    from a have 2: "fst ` set vs \<subseteq> fst ` set kvs" by (rule conjunct2 [THEN conjunct1])
    from a have 3: "\<forall>(k, q) \<in> set vs. q (fieldOf h v k) = Success (fieldOf h v k)"
      by (rule conjunct2 [THEN conjunct2])
    show "map_of ?res = map_of kvs |` (fst ` set vs)"
      by (rule restr [OF 1 2 3])
  qed
qed

theorem parseObjectOf_success_declared_fields_witness:
  "distinct (map fst [(''artist'', parseString :: (int jsval, int jsval) parser),
                      (''yearReleased'', parseNumber)])
   \<and> ''__proto__'' \<notin> fst ` set [(''artist'', parseString :: (int jsval, int jsval) parser),
                                    (''yearReleased'', parseNumber)]
   \<and> parseString (fieldOf intHost album ''artist'') = Success (fieldOf intHost album ''artist'')
   \<and> parseNumber (fieldOf intHost album ''yearReleased'')
       = Success (fieldOf intHost album ''yearReleased'')
   \<and> parseObjectOf intHost [(''artist'', parseString), (''yearReleased'', parseNumber)] album
       = Success (JObj [(''artist'', JStr ''The Beatles''), (''yearReleased'', JNum 1966)])
   \<and> map_of [(''artist'', JStr ''The Beatles''), (''yearReleased'', JNum 1966 :: int jsval)]
       = map_of [(''artist'', JStr ''The Beatles''), (''name'', JStr ''Revolver''),
                 (''yearReleased'', JNum 1966)] |` {''artist'', ''yearReleased''}"
proof -
  let ?vs = "[(''artist'', parseString :: (int jsval, int jsval) parser),
              (''yearReleased'', parseNumber)]"
  let ?kvs = "[(''artist'', JStr ''The Beatles''), (''name'', JStr ''Revolver''),
               (''yearReleased'', JNum 1966 :: int jsval)]"
  have h1: "distinct (map fst ?vs)"
    by simp
  have h2: "''__proto__'' \<notin> fst ` set ?vs"
    by simp
  have h4: "\<forall>(k, q) \<in> set ?vs. q (fieldOf intHost album k) = Success (fieldOf intHost album k)"
    by (simp add: fieldOf_def album_def parseString_def parseNumber_def success_def)
  have h3: "\<forall>(k, q) \<in> set ?vs. isSuccess (q (fieldOf intHost album k))"
    using h4 by (simp add: isSuccess_def)
  have h5: "album = JObj ?kvs"
    by (simp add: album_def)
  have h6: "fst ` set ?vs \<subseteq> fst ` set ?kvs"
    by simp
  have fields: "map (\<lambda>(k, q). (k, svalue (q (fieldOf intHost album k)))) ?vs
                  = [(''artist'', JStr ''The Beatles''), (''yearReleased'', JNum 1966)]"
    by (simp add: fieldOf_def album_def parseString_def parseNumber_def success_def)
  have keys: "fst ` set ?vs = {''artist'', ''yearReleased''}"
    by simp
  note t = parseObjectOf_success_declared_fields [where vs = ?vs and h = intHost and v = album
             and kvs = ?kvs, OF h1 h2 h3]
  from t have c1: "parseObjectOf intHost ?vs album
          = Success (JObj (map (\<lambda>(k, q). (k, svalue (q (fieldOf intHost album k)))) ?vs))"
    by blast
  from t h4 h5 h6 have c2: "map_of (map (\<lambda>(k, q). (k, svalue (q (fieldOf intHost album k)))) ?vs)
          = map_of ?kvs |` (fst ` set ?vs)"
    by blast
  from c1 c2 h1 h2 h4 show ?thesis
    unfolding fields keys by simp
qed

text \<open>
  The claim as written fails for a child that rebuilds its value. In
  \<^verbatim>\<open>{child: {id: 1, extra: true}}\<close> the declared field \<^verbatim>\<open>child\<close> satisfies its
  validator, a nested record validator declaring \<^verbatim>\<open>id\<close>; the result carries
  \<^verbatim>\<open>{id: 1}\<close> under \<^verbatim>\<open>child\<close>, where the input has \<^verbatim>\<open>{id: 1, extra: true}\<close>.
\<close>

theorem parseObjectOf_success_declared_fields_counterexample:
  "isSuccess (parseObjectOf intHost [(''id'', parseNumber)] (fieldOf intHost family ''child''))
   \<and> fieldOf intHost family ''child'' = JObj [(''id'', JNum 1), (''extra'', JBool True)]
   \<and> parseObjectOf intHost [(''child'', parseObjectOf intHost [(''id'', parseNumber)])] family
       = Success (JObj [(''child'', JObj [(''id'', JNum 1)])])
   \<and> getProp intHost (JObj [(''id'', JNum 1)]) ''extra'' = JUndefined
   \<and> getProp intHost (JObj [(''id'', JNum 1), (''extra'', JBool True)]) ''extra'' = JBool True"
  by (simp add: parseObjectOf_def fieldOf_def family_def parseNumber_def success_def
        isSuccess_def builtinOrUndefined_def intHost_def objectPrototypeFunctions_def)

text \<open>
  C9. \<open>parseObjectOf\<close> does not test the type of its input: it fails only when the
  validator of a declared field fails on what is read for that field. A falsy input
  (\<^verbatim>\<open>null\<close>, \<^verbatim>\<open>undefined\<close>, \<^verbatim>\<open>false\<close>, a falsy number, the empty string) has every
  field read as \<^verbatim>\<open>undefined\<close>, so validators that all accept \<^verbatim>\<open>undefined\<close> make the
  record validator succeed on \<^verbatim>\<open>null\<close>; with no declared field it succeeds on every
  input with the empty record.
\<close>

theorem parseObjectOf_no_type_check:
  "(isFailure (parseObjectOf h vs v) \<longrightarrow> (\<exists>(k, q) \<in> set vs. isFailure (q (fieldOf h v k))))
   \<and> (\<not> truthy h v \<longrightarrow> fieldOf h v key = JUndefined)
   \<and> \<not> truthy h JNull \<and> \<not> truthy h JUndefined \<and> \<not> truthy h (JBool False)
   \<and> \<not> truthy h (JStr [])
   \<and> (numIsFalsy h n \<longrightarrow> \<not> truthy h (JNum n))
   \<and> ((\<forall>(k, q) \<in> set vs. isSuccess (q JUndefined)) \<longrightarrow> isSuccess (parseObjectOf h vs JNull))
   \<and> parseObjectOf h [] v = Success (JObj [])"
proof -
  have a: "isFailure (parseObjectOf h vs v) \<longrightarrow>
             (\<exists>(k, q) \<in> set vs. isFailure (q (fieldOf h v k)))"
    unfolding parseObjectOf_def by (blast dest: objectOfLoop_failure_field)
  have b: "isSuccess (parseObjectOf h vs JNull)" if ok: "\<forall>(k, q) \<in> set vs. isSuccess (q JUndefined)"
  proof (rule ccontr)
    assume "\<not> isSuccess (parseObjectOf h vs JNull)"
    then have "isFailure (parseObjectOf h vs JNull)"
      by (cases "parseObjectOf h vs JNull") (simp_all add: isSuccess_def isFailure_def)
    then obtain k q where "(k, q) \<in> set vs" and "isFailure (q (fieldOf h JNull k))"
      unfolding parseObjectOf_def by (blast dest: objectOfLoop_failure_field)
    with ok show False
      by (cases "q JUndefined") (auto simp: fieldOf_def isSuccess_def isFailure_def)
  qed
  from a b show ?thesis
    by (simp add: fieldOf_def parseObjectOf_def success_def)
qed

theorem parseObjectOf_no_type_check_witness:
  "isFailure (parseObjectOf intHost [(''name'', parseString)] JNull)
   \<and> (\<exists>(k, q) \<in> set [(''name'', parseString)]. isFailure (q (fieldOf intHost JNull k)))
   \<and> \<not> truthy intHost JNull
   \<and> fieldOf intHost JNull ''name'' = JUndefined
   \<and> numIsFalsy intHost 0
   \<and> \<not> truthy intHost (JNum 0)
   \<and> isSuccess (voidable parseString (JUndefined :: int jsval))
   \<and> isSuccess (parseObjectOf intHost [(''nick'', voidable parseString)] JNull)
   \<and> parseObjectOf intHost [] (JNum 5) = Success (JObj [])"
proof -
  have h1: "isFailure (parseObjectOf intHost [(''name'', parseString)] JNull)"
    by (simp add: parseObjectOf_def fieldOf_def parseString_def isFailure_def)
  have h2: "\<not> truthy intHost JNull"
    by simp
  have h3: "numIsFalsy intHost 0"
    by (simp add: intHost_def)
  have h4: "\<forall>(k, q) \<in> set [(''nick'', voidable parseString)]. isSuccess (q (JUndefined :: int jsval))"
    by (simp add: voidable_def success_def isSuccess_def)
  note t1 = parseObjectOf_no_type_check [of intHost "[(''name'', parseString)]" JNull "''name''" 0]
  note t2 = parseObjectOf_no_type_check [of intHost "[(''nick'', voidable parseString)]" "JNum 5" "''nick''" 0]
  from t1 h1 have c1: "\<exists>(k, q) \<in> set [(''name'', parseString)]. isFailure (q (fieldOf intHost JNull k))"
    by blast
  from t1 h2 have c2: "fieldOf intHost JNull ''name'' = JUndefined"
    by blast
  from t1 h3 have c3: "\<not> truthy intHost (JNum 0)"
    by blast
  from t2 h4 have c4: "isSuccess (parseObjectOf intHost [(''nick'', voidable parseString)] JNull)"
    by blast
  from t2 have c5: "parseObjectOf intHost [] (JNum 5) = Success (JObj [])"
    by blast
  from h1 h2 h3 h4 c1 c2 c3 c4 c5 show ?thesis by simp
qed

section \<open>Homogeneous sequences\<close>

lemma foldl_arrayOfStep_Failure:
  "foldl (arrayOfStep p arr) (Failure f) ims = Failure f"
  by (induction ims) (simp_all add: arrayOfStep_def mapSuccess_def)

lemma foldl_arrayOfStep_Success:
  "\<forall>x \<in> set xs. isSuccess (p x) \<Longrightarrow>
   foldl (arrayOfStep p arr) (Success items) (List.enumerate n xs) =
   Success (items @ map (\<lambda>x. svalue (p x)) xs)"
proof (induction xs arbitrary: items n)
  case Nil
  show ?case by simp
next
  case (Cons x xs)
  from Cons.prems obtain y where y: "p x = Success y"
    by (cases "p x") (auto simp: isSuccess_def)
  from Cons.prems have "\<forall>x \<in> set xs. isSuccess (p x)" by simp
  from Cons.IH [OF this, of "items @ [y]" "Suc n"] show ?case
    by (simp add: arrayOfStep_def mapSuccess_def mapResult_def success_def y)
qed

lemma parseArrayOf_JArr:
  "parseArrayOf p (JArr xs) =
     mapFailure (foldl (arrayOfStep p xs) (Success []) (List.enumerate 0 xs))
       (\<lambda>f. Failure (MkFailure (reason f) (JArr xs)))"
  by (simp add: parseArrayOf_def mapParser_def parseArray_def mapSuccess_def success_def)

text \<open>
  C2. \<open>parseArrayOf p\<close> rejects an input that is not an array, with that input as the
  failure's value. On an array it validates the members in index order: when the
  members before index \<open>length pre\<close> validate and the member at that index fails, the
  result is a failure with reason \<^verbatim>\<open>Failed at '<index>': \<close> followed by the child's
  reason and with the whole array as value, whatever the later members are. When every
  member validates, the result is the list of validated values in the original order;
  for the empty array it is the empty list.
\<close>

theorem parseArrayOf_results:
  "(\<not> isArray v \<longrightarrow>
      parseArrayOf p v = Failure (MkFailure ''value is not Array.isArray'' v))
   \<and> ((\<forall>y \<in> set pre. isSuccess (p y)) \<and> p x = Failure f \<longrightarrow>
      parseArrayOf p (JArr (pre @ x # rest)) =
        Failure (MkFailure (''Failed at '' @ [CHR 0x27] @ showNat (length pre) @ [CHR 0x27] @ '': ''
                            @ reason f) (JArr (pre @ x # rest))))
   \<and> ((\<forall>y \<in> set xs. isSuccess (p y)) \<longrightarrow>
      parseArrayOf p (JArr xs) = Success (map (\<lambda>y. svalue (p y)) xs))
   \<and> parseArrayOf p (JArr []) = Success []"
proof -
  have a: "parseArrayOf p v = Failure (MkFailure ''value is not Array.isArray'' v)"
    if "\<not> isArray v"
    using that
    by (cases v)
       (simp_all add: parseArrayOf_def mapParser_def parseArray_def mapSuccess_def
          mapFailure_def failure_def)
  have b: "parseArrayOf p (JArr (pre @ x # rest)) =
        Failure (MkFailure (''Failed at '' @ [CHR 0x27] @ showNat (length pre) @ [CHR 0x27] @ '': ''
                            @ reason f) (JArr (pre @ x # rest)))"
    if ok: "\<forall>y \<in> set pre. isSuccess (p y)" and bad: "p x = Failure f"
  proof -
    let ?arr = "pre @ x # rest"
    have "foldl (arrayOfStep p ?arr) (Success []) (List.enumerate 0 ?arr) =
            foldl (arrayOfStep p ?arr)
              (foldl (arrayOfStep p ?arr) (Success []) (List.enumerate 0 pre))
              ((length pre, x) # List.enumerate (Suc (length pre)) rest)"
      by (simp add: enumerate_append_eq)
    also have "\<dots> = foldl (arrayOfStep p ?arr) (Success (map (\<lambda>y. svalue (p y)) pre))
              ((length pre, x) # List.enumerate (Suc (length pre)) rest)"
      using foldl_arrayOfStep_Success [OF ok, of ?arr "[]" 0] by simp
    also have "\<dots> = Failure (keyedFailure (JArr ?arr) (showNat (length pre)) f)"
      by (simp add: arrayOfStep_def mapSuccess_def mapResult_def bad foldl_arrayOfStep_Failure)
    finally show ?thesis
      by (simp add: parseArrayOf_JArr mapFailure_def keyedFailure_def)
  qed
  have c: "parseArrayOf p (JArr xs) = Success (map (\<lambda>y. svalue (p y)) xs)"
    if ok: "\<forall>y \<in> set xs. isSuccess (p y)"
    using foldl_arrayOfStep_Success [OF ok, of xs "[]" 0]
    by (simp add: parseArrayOf_JArr mapFailure_def)
  have d: "parseArrayOf p (JArr []) = Success []"
    by (simp add: parseArrayOf_JArr mapFailure_def)
  from a b c d show ?thesis by blast
qed

theorem parseArrayOf_results_witness:
  "\<not> isArray (JStr ''abc'' :: int jsval)
   \<and> parseArrayOf parseNumber (JStr ''abc'' :: int jsval)
       = Failure (MkFailure ''value is not Array.isArray'' (JStr ''abc''))
   \<and> isSuccess (parseNumber (JNum 1 :: int jsval))
   \<and> parseNumber (JStr ''2'' :: int jsval)
       = Failure (MkFailure ''typeof value is string'' (JStr ''2''))
   \<and> parseArrayOf parseNumber (JArr [JNum 1, JStr ''2'', JNum 3 :: int jsval])
       = Failure (MkFailure (''Failed at '' @ [CHR 0x27] @ ''1'' @ [CHR 0x27] @ '': ''
                             @ ''typeof value is string'')
                    (JArr [JNum 1, JStr ''2'', JNum 3]))
   \<and> isSuccess (parseNumber (JNum 2 :: int jsval))
   \<and> isSuccess (parseNumber (JNum 3 :: int jsval))
   \<and> parseArrayOf parseNumber (JArr [JNum 1, JNum 2, JNum 3 :: int jsval])
       = Success [JNum 1, JNum 2, JNum 3]"
proof -
  have h1: "\<not> isArray (JStr ''abc'' :: int jsval)"
    by simp
  have h2: "\<forall>y \<in> set [JNum 1 :: int jsval]. isSuccess (parseNumber y)"
    by (simp add: parseNumber_def success_def isSuccess_def)
  have h3: "parseNumber (JStr ''2'' :: int jsval)
              = Failure (MkFailure ''typeof value is string'' (JStr ''2''))"
    by (simp add: parseNumber_def failTypeOf_def failure_def)
  have h4: "\<forall>y \<in> set [JNum 1, JNum 2, JNum 3 :: int jsval]. isSuccess (parseNumber y)"
    by (simp add: parseNumber_def success_def isSuccess_def)
  have idx: "showNat (Suc 0) = ''1''"
    by (simp add: showNat.simps digitChar_def)
  have vals: "map (\<lambda>y. svalue (parseNumber y)) [JNum 1, JNum 2, JNum 3 :: int jsval]
                = [JNum 1, JNum 2, JNum 3]"
    by (simp add: parseNumber_def success_def)
  note t1 = parseArrayOf_results [where p = parseNumber and v = "JStr ''abc'' :: int jsval"
              and pre = "[JNum 1]" and x = "JStr ''2''"
              and f = "MkFailure ''typeof value is string'' (JStr ''2'')"
              and rest = "[JNum 3]" and xs = "[JNum 1, JNum 2, JNum 3]"]
  from t1 h1 have c1: "parseArrayOf parseNumber (JStr ''abc'' :: int jsval)
       = Failure (MkFailure ''value is not Array.isArray'' (JStr ''abc''))"
    by blast
  from t1 h2 h3 have "parseArrayOf parseNumber (JArr ([JNum 1] @ JStr ''2'' # [JNum 3 :: int jsval]))
       = Failure (MkFailure (''Failed at '' @ [CHR 0x27] @ showNat (length [JNum 1 :: int jsval])
                             @ [CHR 0x27] @ '': ''
                             @ reason (MkFailure ''typeof value is string'' (JStr ''2'' :: int jsval)))
                    (JArr ([JNum 1] @ JStr ''2'' # [JNum 3])))"
    by blast
  then have c2: "parseArrayOf parseNumber (JArr [JNum 1, JStr ''2'', JNum 3 :: int jsval])
       = Failure (MkFailure (''Failed at '' @ [CHR 0x27] @ ''1'' @ [CHR 0x27] @ '': ''
                             @ ''typeof value is string'')
                    (JArr [JNum 1, JStr ''2'', JNum 3]))"
    by (simp add: idx)
  from t1 h4 have "parseArrayOf parseNumber (JArr [JNum 1, JNum 2, JNum 3 :: int jsval])
       = Success (map (\<lambda>y. svalue (parseNumber y)) [JNum 1, JNum 2, JNum 3])"
    by blast
  with vals have c3: "parseArrayOf parseNumber (JArr [JNum 1, JNum 2, JNum 3 :: int jsval])
       = Success [JNum 1, JNum 2, JNum 3]"
    by simp
  from h1 h2 h3 h4 c1 c2 c3 show ?thesis by simp
qed

section \<open>Alternation\<close>

lemma mapFailure_simps:
  "mapFailure (Failure f) g = g f"
  "mapFailure (Success a) g = Success a"
  by (simp_all add: mapFailure_def)

lemma foldl_oneOf_Success:
  "foldl (\<lambda>r validator. mapFailure r (\<lambda>_. validator v)) (Success x) qs = Success x"
  by (induction qs) (simp_all add: mapFailure_simps)

lemma foldl_oneOf_all_fail:
  "isFailure r \<Longrightarrow> \<forall>q \<in> set qs. isFailure (q v) \<Longrightarrow>
   isFailure (foldl (\<lambda>r validator. mapFailure r (\<lambda>_. validator v)) r qs)"
proof (induction qs arbitrary: r)
  case Nil
  then show ?case by simp
next
  case (Cons q qs)
  from Cons.prems(1) obtain f where r: "r = Failure f"
    by (cases r) (auto simp: isFailure_def)
  from Cons.prems(2) have "isFailure (q v)" and "\<forall>q \<in> set qs. isFailure (q v)"
    by simp_all
  from Cons.IH [OF this] show ?case
    by (simp add: r mapFailure_simps)
qed

lemma foldl_oneOf_first_success:
  "isFailure r \<Longrightarrow> \<forall>q \<in> set pre. isFailure (q v) \<Longrightarrow> q v = Success x \<Longrightarrow>
   foldl (\<lambda>r validator. mapFailure r (\<lambda>_. validator v)) r (pre @ q # rest) = Success x"
proof -
  assume r: "isFailure r" and pre: "\<forall>q \<in> set pre. isFailure (q v)" and q: "q v = Success x"
  from foldl_oneOf_all_fail [where r = r and qs = pre and v = v, OF r pre]
  obtain f where "foldl (\<lambda>r validator. mapFailure r (\<lambda>_. validator v)) r pre = Failure f"
    by (cases "foldl (\<lambda>r validator. mapFailure r (\<lambda>_. validator v)) r pre")
       (auto simp: isFailure_def)
  then show ?thesis
    by (simp add: mapFailure_simps q foldl_oneOf_Success)
qed

text \<open>
  C5, as the code has it. Given a single validator, \<open>parseOneOf\<close> returns that
  validator's result, so its failure is the validator's own. In general the validators
  are tried in the order given and the first success is the result, whatever the
  validators after it are. Given two or more validators that all fail on an input whose
  string conversion is \<open>s\<close>, the result is one failure whose value is the input and whose
  reason is \<^verbatim>\<open>'<s>' did not match any of <N> validators\<close>, \<open>N\<close> being the number of
  validators, the first included; the reasons of the validators do not appear in it.
\<close>

theorem parseOneOf_results:
  "parseOneOf h p [] v = Inr (p v)
   \<and> ((\<forall>q \<in> set pre. isFailure (q v)) \<and> q v = Success x \<and> p # parsers = pre @ q # rest \<longrightarrow>
      parseOneOf h p parsers v = Inr (Success x))
   \<and> (parsers \<noteq> [] \<and> (\<forall>q \<in> set (p # parsers). isFailure (q v)) \<and> toString h v = Inr s \<longrightarrow>
      parseOneOf h p parsers v =
        Inr (Failure (MkFailure ([CHR 0x27] @ s @ [CHR 0x27] @ '' did not match any of ''
                                 @ showNat (length (p # parsers)) @ '' validators'') v)))"
proof -
  let ?step = "\<lambda>r validator. mapFailure r (\<lambda>_. validator v)"
  have a: "parseOneOf h p [] v = Inr (p v)"
    by (simp add: parseOneOf_def)
  have b: "parseOneOf h p parsers v = Inr (Success x)"
    if pre: "\<forall>q \<in> set pre. isFailure (q v)" and q: "q v = Success x"
      and split: "p # parsers = pre @ q # rest"
  proof (cases pre)
    case Nil
    with split have "p = q" and "parsers = rest" by simp_all
    then show ?thesis
      by (simp add: parseOneOf_def q foldl_oneOf_Success mapFailureThrowing_def)
  next
    case (Cons p' pre')
    with split have p: "p' = p" and ps: "parsers = pre' @ q # rest" by simp_all
    from pre Cons p have "isFailure (p v)" and "\<forall>q \<in> set pre'. isFailure (q v)"
      by simp_all
    from foldl_oneOf_first_success [where r = "p v" and pre = pre' and v = v and q = q
           and x = x and rest = rest, OF this q]
    show ?thesis
      by (simp add: parseOneOf_def ps mapFailureThrowing_def)
  qed
  have c: "parseOneOf h p parsers v =
        Inr (Failure (MkFailure ([CHR 0x27] @ s @ [CHR 0x27] @ '' did not match any of ''
                                 @ showNat (length (p # parsers)) @ '' validators'') v))"
    if ne: "parsers \<noteq> []" and bad: "\<forall>q \<in> set (p # parsers). isFailure (q v)"
      and str: "toString h v = Inr s"
  proof -
    from bad have "isFailure (p v)" and "\<forall>q \<in> set parsers. isFailure (q v)"
      by simp_all
    from foldl_oneOf_all_fail [where r = "p v" and qs = parsers and v = v, OF this]
    obtain f where "foldl ?step (p v) parsers = Failure f"
      by (cases "foldl ?step (p v) parsers") (auto simp: isFailure_def)
    with ne str show ?thesis
      by (simp add: parseOneOf_def mapFailureThrowing_def failure_def)
  qed
  from a b c show ?thesis by blast
qed

theorem parseOneOf_results_witness:
  "parseOneOf intHost parseString [] (JStr ''a'') = Inr (parseString (JStr ''a''))
   \<and> isFailure (parseNumber (JBool True :: int jsval))
   \<and> isFailure (parseString (JBool True :: int jsval))
   \<and> parseBoolean (JBool True :: int jsval) = Success (JBool True)
   \<and> parseOneOf intHost parseNumber [parseString, parseBoolean, parseAnyValue] (JBool True)
       = Inr (Success (JBool True))
   \<and> isFailure (parseNumber (JNull :: int jsval))
   \<and> isFailure (parseString (JNull :: int jsval))
   \<and> isFailure (parseBoolean (JNull :: int jsval))
   \<and> toString intHost JNull = Inr ''null''
   \<and> parseOneOf intHost parseNumber [parseString, parseBoolean] JNull
       = Inr (Failure (MkFailure ([CHR 0x27] @ ''null'' @ [CHR 0x27]
                                  @ '' did not match any of 3 validators'') JNull))"
proof -
  have f1: "isFailure (parseNumber (JBool True :: int jsval))"
    and f2: "isFailure (parseString (JBool True :: int jsval))"
    and s3: "parseBoolean (JBool True :: int jsval) = Success (JBool True)"
    by (simp_all add: parseNumber_def parseString_def parseBoolean_def success_def isFailure_def)
  have n1: "isFailure (parseNumber (JNull :: int jsval))"
    and n2: "isFailure (parseString (JNull :: int jsval))"
    and n3: "isFailure (parseBoolean (JNull :: int jsval))"
    by (simp_all add: parseNumber_def parseString_def parseBoolean_def isFailure_def)
  have str: "toString intHost JNull = Inr ''null''"
    by simp
  have three: "showNat (Suc (Suc (Suc 0))) = ''3''"
    by (simp add: showNat.simps digitChar_def)
  note t1 = parseOneOf_results [where h = intHost and p = parseNumber
              and parsers = "[parseString, parseBoolean, parseAnyValue]"
              and pre = "[parseNumber, parseString]" and q = parseBoolean
              and rest = "[parseAnyValue]" and v = "JBool True :: int jsval" and x = "JBool True"]
  note t2 = parseOneOf_results [where h = intHost and p = parseNumber
              and parsers = "[parseString, parseBoolean]" and v = "JNull :: int jsval"
              and s = "''null''"]
  note t3 = parseOneOf_results [where h = intHost
              and p = "parseString :: (int jsval, int jsval) parser" and v = "JStr ''a''"]
  from t3 have c0: "parseOneOf intHost parseString [] (JStr ''a'') = Inr (parseString (JStr ''a''))"
    by blast
  from t1 f1 f2 s3
  have c1: "parseOneOf intHost parseNumber [parseString, parseBoolean, parseAnyValue] (JBool True)
       = Inr (Success (JBool True))"
    by simp
  from t2 n1 n2 n3 str
  have c2: "parseOneOf intHost parseNumber [parseString, parseBoolean] JNull
       = Inr (Failure (MkFailure ([CHR 0x27] @ ''null'' @ [CHR 0x27]
                                  @ '' did not match any of 3 validators'') JNull))"
    by (simp add: three)
  from c0 c1 c2 f1 f2 s3 n1 n2 n3 str show ?thesis by simp
qed

text \<open>
  The claim as written fails for a single validator: \<open>parseString\<close> fails on \<^verbatim>\<open>1\<close>, and
  the failure of \<open>parseOneOf\<close> is the validator's own, not the synthesized one. It also
  fails where the input has no string conversion: \<open>parseNumber\<close> and \<open>parseString\<close> both
  fail on the JSON object \<^verbatim>\<open>{"toString": 1}\<close>, and the call throws a \<^verbatim>\<open>TypeError\<close>
  instead of returning a failure.
\<close>

theorem parseOneOf_results_counterexample:
  "isFailure (parseString (JNum 1 :: int jsval))
   \<and> toString intHost (JNum 1) = Inr ''1''
   \<and> parseOneOf intHost parseString [] (JNum 1)
       = Inr (Failure (MkFailure ''typeof value is number'' (JNum 1)))
   \<and> ''typeof value is number''
       \<noteq> [CHR 0x27] @ ''1'' @ [CHR 0x27] @ '' did not match any of '' @ ''1'' @ '' validators''
   \<and> isFailure (parseNumber (JObj [(''toString'', JNum 1 :: int jsval)]))
   \<and> isFailure (parseString (JObj [(''toString'', JNum 1 :: int jsval)]))
   \<and> parseOneOf intHost parseNumber [parseString] (JObj [(''toString'', JNum 1)]) = Inl TypeError"
  by (simp add: parseOneOf_def parseString_def parseNumber_def failTypeOf_def failure_def
        isFailure_def mapFailureThrowing_def mapFailure_def intHost_def showInt_def
        showNat.simps digitChar_def)
section \<open>Homogeneous key-indexed maps\<close>

lemma indexedLoop_prefix:
  "\<forall>k \<in> set pre. isSuccess (p (getProp h v k)) \<Longrightarrow>
   indexedLoop h p (pre @ rest) v res =
   indexedLoop h p rest v
     (foldl (\<lambda>acc k. setProp acc k (svalue (p (getProp h v k)))) res pre)"
proof (induction pre arbitrary: res)
  case Nil
  show ?case by simp
next
  case (Cons k pre)
  from Cons.prems obtain x where x: "p (getProp h v k) = Success x"
    by (cases "p (getProp h v k)") (auto simp: isSuccess_def)
  from Cons.prems have "\<forall>k \<in> set pre. isSuccess (p (getProp h v k))"
    by simp
  from Cons.IH [OF this] show ?case
    by (simp add: x)
qed

lemma assemble_ordinary_keys:
  "''__proto__'' \<notin> set ks \<Longrightarrow>
   foldl (\<lambda>acc k. setProp acc k (g k)) (JObj res) ks =
   JObj (foldl (\<lambda>acc k. AList.update k (g k) acc) res ks)"
  by (induction ks arbitrary: res) auto

lemma map_of_assemble:
  "map_of (foldl (\<lambda>acc k. AList.update k (g k) acc) res ks) k =
     (if k \<in> set ks then Some (g k) else map_of res k)"
  by (induction ks arbitrary: res) (simp_all add: update_conv')

lemma keys_assemble:
  "fst ` set (foldl (\<lambda>acc k. AList.update k (g k) acc) res ks) = fst ` set res \<union> set ks"
  by (induction ks arbitrary: res) (simp_all add: dom_update Un_assoc)

text \<open>
  \<open>parseIndexedObjectOf p\<close> fails on \<^verbatim>\<open>null\<close> and on \<^verbatim>\<open>undefined\<close> with reason
  \<^verbatim>\<open>value is null or undefined\<close>, and on any other input whose type tag is not
  \<^verbatim>\<open>object\<close> with the type-tag reason, the input being the failure's value. Otherwise
  it validates the value at each key in enumeration order: when the keys before \<open>key\<close>
  validate and the value at \<open>key\<close> fails, the result is a failure with reason
  \<^verbatim>\<open>Failed at '<key>': \<close> followed by the child's reason and with the whole input as
  value, whatever the later keys are. When the value at every key validates and no key
  is \<^verbatim>\<open>__proto__\<close>, the result is a success carrying a new map whose keys are the keys
  of the input, each with its validated value.
\<close>

lemma parseIndexedObjectOf_results:
  "parseIndexedObjectOf h p JNull = Failure (MkFailure ''value is null or undefined'' JNull)
   \<and> parseIndexedObjectOf h p JUndefined
       = Failure (MkFailure ''value is null or undefined'' JUndefined)
   \<and> (typeof v \<noteq> ''object'' \<and> v \<noteq> JUndefined \<longrightarrow>
       parseIndexedObjectOf h p v = Failure (MkFailure (''typeof value is '' @ typeof v) v))
   \<and> (typeof v = ''object'' \<and> v \<noteq> JNull \<and> forInKeys v = pre @ key # rest
        \<and> (\<forall>k \<in> set pre. isSuccess (p (getProp h v k))) \<and> p (getProp h v key) = Failure f \<longrightarrow>
       parseIndexedObjectOf h p v =
         Failure (MkFailure (''Failed at '' @ [CHR 0x27] @ key @ [CHR 0x27] @ '': '' @ reason f) v))
   \<and> (typeof v = ''object'' \<and> v \<noteq> JNull \<and> ''__proto__'' \<notin> set (forInKeys v)
        \<and> (\<forall>k \<in> set (forInKeys v). isSuccess (p (getProp h v k))) \<longrightarrow>
       (\<exists>res. parseIndexedObjectOf h p v = Success (JObj res)
          \<and> fst ` set res = set (forInKeys v)
          \<and> (\<forall>k \<in> set (forInKeys v). map_of res k = Some (svalue (p (getProp h v k))))))"
proof -
  let ?g = "\<lambda>k. svalue (p (getProp h v k))"
  let ?asm = "\<lambda>ks. foldl (\<lambda>acc k. AList.update k (?g k) acc) [] ks"
  have a: "parseIndexedObjectOf h p JNull = Failure (MkFailure ''value is null or undefined'' JNull)"
    and b: "parseIndexedObjectOf h p JUndefined
              = Failure (MkFailure ''value is null or undefined'' JUndefined)"
    by (simp_all add: parseIndexedObjectOf_def failure_def)
  have c: "parseIndexedObjectOf h p v = Failure (MkFailure (''typeof value is '' @ typeof v) v)"
    if "typeof v \<noteq> ''object''" and "v \<noteq> JUndefined"
    using that by (cases v) (simp_all add: parseIndexedObjectOf_def failTypeOf_def failure_def)
  have loop: "parseIndexedObjectOf h p v = indexedLoop h p (forInKeys v) v (JObj [])"
    if "typeof v = ''object''" and "v \<noteq> JNull"
    using that by (cases v) (simp_all add: parseIndexedObjectOf_def)
  have d: "parseIndexedObjectOf h p v =
         Failure (MkFailure (''Failed at '' @ [CHR 0x27] @ key @ [CHR 0x27] @ '': '' @ reason f) v)"
    if obj: "typeof v = ''object''" "v \<noteq> JNull" and keys: "forInKeys v = pre @ key # rest"
      and ok: "\<forall>k \<in> set pre. isSuccess (p (getProp h v k))"
      and bad: "p (getProp h v key) = Failure f"
  proof -
    have "indexedLoop h p (pre @ key # rest) v (JObj []) =
            indexedLoop h p (key # rest) v (foldl (\<lambda>acc k. setProp acc k (?g k)) (JObj []) pre)"
      by (rule indexedLoop_prefix [OF ok])
    also have "\<dots> = Failure (keyedFailure v key f)"
      by (simp add: bad)
    finally show ?thesis
      by (simp add: loop [OF obj] keys keyedFailure_def)
  qed
  have e: "\<exists>res. parseIndexedObjectOf h p v = Success (JObj res)
          \<and> fst ` set res = set (forInKeys v)
          \<and> (\<forall>k \<in> set (forInKeys v). map_of res k = Some (svalue (p (getProp h v k))))"
    if obj: "typeof v = ''object''" "v \<noteq> JNull" and np: "''__proto__'' \<notin> set (forInKeys v)"
      and ok: "\<forall>k \<in> set (forInKeys v). isSuccess (p (getProp h v k))"
  proof -
    have "indexedLoop h p (forInKeys v @ []) v (JObj []) =
            indexedLoop h p [] v (foldl (\<lambda>acc k. setProp acc k (?g k)) (JObj []) (forInKeys v))"
      by (rule indexedLoop_prefix [OF ok])
    also have "\<dots> = Success (JObj (?asm (forInKeys v)))"
      by (simp add: assemble_ordinary_keys [OF np] success_def)
    finally have "parseIndexedObjectOf h p v = Success (JObj (?asm (forInKeys v)))"
      by (simp add: loop [OF obj])
    moreover have "fst ` set (?asm (forInKeys v)) = set (forInKeys v)"
      by (simp add: keys_assemble)
    moreover have "\<forall>k \<in> set (forInKeys v).
        map_of (?asm (forInKeys v)) k = Some (svalue (p (getProp h v k)))"
      by (simp add: map_of_assemble)
    ultimately show ?thesis by blast
  qed
  from a b c d e show ?thesis by blast
qed

text \<open>
  C8. The claim has every key of the input in the map that is returned. The code
  assigns \<^verbatim>\<open>result[key] = child.value\<close> for each key, and for the key \<^verbatim>\<open>__proto__\<close>
  that assignment runs the prototype setter of the fresh object instead of creating a
  property. The JSON object \<^verbatim>\<open>{"__proto__": 1, "a": 2}\<close> owns both keys and both
  values are numbers; the map returned for it has the key \<^verbatim>\<open>a\<close> only.
\<close>

theorem parseIndexedObjectOf_proto_key_dropped:
  "forInKeys protoKeyed = [''__proto__'', ''a'']
   \<and> parseNumber (getProp intHost protoKeyed ''__proto__'') = Success (JNum 1)
   \<and> parseNumber (getProp intHost protoKeyed ''a'') = Success (JNum 2)
   \<and> parseIndexedObjectOf intHost parseNumber protoKeyed = Success (JObj [(''a'', JNum 2)])
   \<and> forInKeys (JObj [(''a'', JNum 2 :: int jsval)]) = [''a'']"
  by (simp add: parseIndexedObjectOf_def protoKeyed_def parseNumber_def success_def
        canBePrototype_def)

end
